theory Spec2Isabelle
  imports Main "HOL-Library.Multiset" "HOL-Library.AList" "HOL-Library.Sublist" "HOL-Library.Word"
begin

unbundle bit_operations_syntax

section \<open>The firewall resource of the DigitalOcean provider\<close>

text \<open>
  A shallow embedding of \<^verbatim>\<open>digitalocean/resource_digitalocean_firewall.go\<close>.
  Untyped framework values (\<^verbatim>\<open>map[string]interface{}\<close>, \<^verbatim>\<open>[]interface{}\<close>) are given the
  types the schema of lines 27-161 fixes for them.
\<close>

subsection \<open>Iteration order of Go maps and of schema sets\<close>

text \<open>
  Go leaves the order of \<^verbatim>\<open>range\<close> over a map unspecified, and the order of
  \<^verbatim>\<open>schema.Set.List()\<close> is an artefact of the set's hash codes. A map or set is held as a
  list without repeated keys; the order in which the program sees its entries is chosen by
  the runtime, a parameter of every function that iterates. A runtime is admissible when
  each of its choices is a rearrangement of the entries.

  Two more answers come from the framework's store (\<^verbatim>\<open>schema.ResourceData\<close>), which is not
  part of this repository: \<open>Set_rules_error key v\<close> is the error of \<^verbatim>\<open>d.Set(key, v)\<close> for a
  list of rules, if the store rejects the value; \<open>Set_droplet_ids v old\<close> is what the field
  \<^verbatim>\<open>droplet_ids\<close>, a list of strings in the schema, holds after the \<^verbatim>\<open>[]int\<close> \<open>v\<close> was
  written over \<open>old\<close>.
\<close>

text \<open>
  A rule, inbound or outbound: \<^verbatim>\<open>godo.InboundRule\<close> with its \<^verbatim>\<open>Sources\<close>,
  \<^verbatim>\<open>godo.OutboundRule\<close> with its \<^verbatim>\<open>Destinations\<close>, and the rule block of the schema
  (keys \<^verbatim>\<open>source_*\<close> or \<^verbatim>\<open>destination_*\<close>) all carry these six fields. A remote rule
  is taken with its \<^verbatim>\<open>Sources\<close> or \<^verbatim>\<open>Destinations\<close> present, as the API returns it.
\<close>

record rule =
  protocol :: string
  port_range :: string
  party_droplet_ids :: "int list"
  party_tags :: "string list"
  party_addresses :: "string list"
  party_load_balancer_uids :: "string list"

record runtime =
  range_ints :: "int list \<Rightarrow> int list"
  set_List :: "string list \<Rightarrow> string list"
  range_rules :: "(int \<times> rule) list \<Rightarrow> (int \<times> rule) list"
  Set_rules_error :: "string \<Rightarrow> rule list \<Rightarrow> string option"
  Set_droplet_ids :: "int list \<Rightarrow> string list \<Rightarrow> string list"

definition admissible :: "runtime \<Rightarrow> bool" where
  "admissible rt \<longleftrightarrow>
     (\<forall>xs. mset (range_ints rt xs) = mset xs) \<and>
     (\<forall>xs. mset (set_List rt xs) = mset xs) \<and>
     (\<forall>xs. mset (range_rules rt xs) = mset xs)"

subsection \<open>Diff suppression of \<^verbatim>\<open>port_range\<close> (lines 88-94 and 131-137)\<close>

definition inbound_port_range_DiffSuppressFunc :: "string \<Rightarrow> string \<Rightarrow> string \<Rightarrow> bool" where
  "inbound_port_range_DiffSuppressFunc k oldV newV =
     (if oldV = ''0'' \<and> newV = ''all'' then True else oldV = newV)"

definition outbound_port_range_DiffSuppressFunc :: "string \<Rightarrow> string \<Rightarrow> string \<Rightarrow> bool" where
  "outbound_port_range_DiffSuppressFunc k oldV newV =
     (if oldV = ''0'' \<and> newV = ''all'' then True else oldV = newV)"

subsection \<open>Reconciling two lists (lines 531-584)\<close>

text \<open>
  The loop of lines 542-548 and 570-576: \<open>remoteSet\<close> is the set still unmatched,
  \<open>matchedList\<close> the output so far. An item found in the set is appended and deleted from
  the set, so a later occurrence of it is skipped.
\<close>

fun match_local :: "'a list \<Rightarrow> 'a list \<Rightarrow> 'a list \<Rightarrow> 'a list \<times> 'a list" where
  "match_local [] remoteSet matchedList = (matchedList, remoteSet)"
| "match_local (i # rest) remoteSet matchedList =
     (if i \<notin> set remoteSet then match_local rest remoteSet matchedList
      else match_local rest (removeAll i remoteSet) (matchedList @ [i]))"

definition matchFirewallIntLists :: "runtime \<Rightarrow> int list \<Rightarrow> int list \<Rightarrow> int list" where
  "matchFirewallIntLists rt local remote =
     (let remoteSet = fold List.insert remote [];
          (matchedList, remoteSet') = match_local local remoteSet []
      in matchedList @ range_ints rt remoteSet')"

text \<open>
  \<^verbatim>\<open>schema.NewSet(schema.HashString, remoteList)\<close> is taken by its contract, a set of the
  strings it is given, with \<^verbatim>\<open>Contains\<close>, \<^verbatim>\<open>Remove\<close> and \<^verbatim>\<open>List\<close>.
\<close>

definition matchFirewallStringLists :: "runtime \<Rightarrow> string list \<Rightarrow> string list \<Rightarrow> string list" where
  "matchFirewallStringLists rt local remote =
     (let remoteList = remote;
          remoteSet = fold List.insert remoteList [];
          (matchedList, remoteSet') = match_local local remoteSet []
      in matchedList @ set_List rt remoteSet')"

text \<open>The first occurrence of every member, in order: what "the local list's relative
  order" is for a local list with repeated members.\<close>

fun first_occurrences :: "'a list \<Rightarrow> 'a list" where
  "first_occurrences [] = []"
| "first_occurrences (x # xs) = x # first_occurrences (filter (\<lambda>y. y \<noteq> x) xs)"

subsection \<open>The fingerprint of a rule (lines 586-590)\<close>

text \<open>
  \<^verbatim>\<open>hashcode.String\<close> of the Terraform helper library: the CRC-32 (IEEE) checksum of the
  bytes as an \<^verbatim>\<open>int\<close>, made non-negative. With a 64-bit \<^verbatim>\<open>int\<close> the checksum is never
  negative and the first branch is always taken.
\<close>

definition crc32_shift :: "32 word \<Rightarrow> 32 word" where
  "crc32_shift c = (if bit c 0 then drop_bit 1 c XOR 0xEDB88320 else drop_bit 1 c)"

definition crc32_byte :: "32 word \<Rightarrow> char \<Rightarrow> 32 word" where
  "crc32_byte c b = (crc32_shift ^^ 8) (c XOR of_char b)"

definition crc32_ChecksumIEEE :: "string \<Rightarrow> 32 word" where
  "crc32_ChecksumIEEE s = NOT (foldl crc32_byte (NOT 0) s)"

definition hashcode_String :: "string \<Rightarrow> int" where
  "hashcode_String s =
     (let v = uint (crc32_ChecksumIEEE s)
      in if v \<ge> 0 then v else if - v \<ge> 0 then - v else 0)"

definition hashFirewallRule :: "string \<Rightarrow> string \<Rightarrow> int" where
  "hashFirewallRule protocol' portRange = hashcode_String (protocol' @ ''-'' @ portRange)"

subsection \<open>The local state and the remote firewall\<close>

record pending_change =
  pc_droplet_id :: int
  pc_removing :: bool
  pc_status :: string

text \<open>The resource data \<^verbatim>\<open>d\<close>: its id and the fields of the schema (lines 27-161).\<close>

record resource_data =
  resource_id :: string
  status :: string
  created_at :: string
  pending_changes :: "pending_change list"
  name :: string
  droplet_ids :: "string list"
  tags :: "string list"
  inbound_rule :: "rule list"
  outbound_rule :: "rule list"

text \<open>\<^verbatim>\<open>godo.Firewall\<close> and \<^verbatim>\<open>godo.FirewallRequest\<close>, as far as the resource reads and
  writes them.\<close>

record firewall =
  ID :: string
  Name :: string
  Status :: string
  Created :: string
  PendingChanges :: "pending_change list"
  DropletIDs :: "int list"
  Tags :: "string list"
  InboundRules :: "rule list"
  OutboundRules :: "rule list"

record firewall_request =
  req_Name :: string
  req_DropletIDs :: "int list"
  req_Tags :: "string list"
  req_InboundRules :: "rule list"
  req_OutboundRules :: "rule list"

subsection \<open>Reconciling two rule lists (lines 403-529)\<close>

text \<open>The \<^verbatim>\<open>rawRule\<close> of lines 413-420 and 475-482: a copy of the remote rule, field by field.\<close>

definition rawRule :: "rule \<Rightarrow> rule" where
  "rawRule r =
     \<lparr>protocol = protocol r, port_range = port_range r,
      party_droplet_ids = party_droplet_ids r, party_tags = party_tags r,
      party_addresses = party_addresses r,
      party_load_balancer_uids = party_load_balancer_uids r\<rparr>"

text \<open>Lines 412-424: \<^verbatim>\<open>remoteMap[hash] = rawRule\<close>; a later rule with the same hash
  replaces the earlier one.\<close>

definition remote_map :: "rule list \<Rightarrow> (int \<times> rule) list" where
  "remote_map rules =
     foldl (\<lambda>remoteMap r.
              AList.update (hashFirewallRule (protocol r) (port_range r)) (rawRule r) remoteMap)
           [] rules"

text \<open>Lines 446-455: the four lists of a matched local rule are reconciled with those of
  the remote rule; protocol and port range stay the local ones.\<close>

definition match_lists :: "runtime \<Rightarrow> rule \<Rightarrow> rule \<Rightarrow> rule" where
  "match_lists rt local remote =
     (let l1 = local\<lparr>party_droplet_ids :=
                 matchFirewallIntLists rt (party_droplet_ids local) (party_droplet_ids remote)\<rparr>;
          l2 = l1\<lparr>party_tags :=
                 matchFirewallStringLists rt (party_tags l1) (party_tags remote)\<rparr>;
          l3 = l2\<lparr>party_addresses :=
                 matchFirewallStringLists rt (party_addresses l2) (party_addresses remote)\<rparr>
      in l3\<lparr>party_load_balancer_uids :=
                 matchFirewallStringLists rt (party_load_balancer_uids l3)
                   (party_load_balancer_uids remote)\<rparr>)"

text \<open>The loop of lines 434-459 and 496-521 over the local rules.\<close>

fun match_rules ::
  "runtime \<Rightarrow> rule list \<Rightarrow> (int \<times> rule) list \<Rightarrow> rule list \<Rightarrow> rule list \<times> (int \<times> rule) list"
where
  "match_rules rt [] remoteMap match = (match, remoteMap)"
| "match_rules rt (local # rest) remoteMap match =
     (let hash = hashFirewallRule (protocol local) (port_range local)
      in case map_of remoteMap hash of
           None \<Rightarrow> match_rules rt rest remoteMap match
         | Some remote \<Rightarrow>
             match_rules rt rest (AList.delete hash remoteMap)
               (match @ [match_lists rt local remote]))"

text \<open>
  Both functions read the local rules from \<^verbatim>\<open>d\<close>. A nil slice and an empty one are the
  same list here, and the nil check of line 404 returns what the general path returns for
  an empty list.
\<close>

definition flattenFirewallInboundRules :: "runtime \<Rightarrow> resource_data \<Rightarrow> rule list \<Rightarrow> rule list" where
  "flattenFirewallInboundRules rt d rules =
     (if rules = [] then []
      else
        let local = inbound_rule d;
            remote = map rawRule rules;
            remoteMap = remote_map rules
        in if length remote = 0 \<or> length local = 0 then remote
           else
             let (match, remoteMap') = match_rules rt local remoteMap []
             in match @ map snd (range_rules rt remoteMap'))"

definition flattenFirewallOutboundRules :: "runtime \<Rightarrow> resource_data \<Rightarrow> rule list \<Rightarrow> rule list" where
  "flattenFirewallOutboundRules rt d rules =
     (let local = outbound_rule d;
          remote = map rawRule rules;
          remoteMap = remote_map rules
      in if length remote = 0 \<or> length local = 0 then remote
         else
           let (match, remoteMap') = match_rules rt local remoteMap []
           in match @ map snd (range_rules rt remoteMap'))"

text \<open>The identity key of a rule and its fingerprint.\<close>

definition rule_key :: "rule \<Rightarrow> string \<times> string" where
  "rule_key r = (protocol r, port_range r)"

definition fingerprint :: "rule \<Rightarrow> int" where
  "fingerprint r = hashFirewallRule (protocol r) (port_range r)"

text \<open>The general path shared by the two functions (lines 433-466 and 495-528): the
  loop over the local rules, then the rules the map still holds.\<close>

definition reconciled :: "runtime \<Rightarrow> rule list \<Rightarrow> rule list \<Rightarrow> rule list" where
  "reconciled rt L R =
     fst (match_rules rt L (remote_map R) [])
       @ map snd (range_rules rt (snd (match_rules rt L (remote_map R) [])))"

text \<open>The first rule of every fingerprint, in order: the local rules that can still find
  their fingerprint in the map when the loop reaches them.\<close>

fun first_by :: "('a \<Rightarrow> 'k) \<Rightarrow> 'a list \<Rightarrow> 'a list" where
  "first_by f [] = []"
| "first_by f (x # xs) = x # first_by f (filter (\<lambda>y. f y \<noteq> f x) xs)"



subsection \<open>Building the request (lines 281-388)\<close>

text \<open>
  \<^verbatim>\<open>strconv.Atoi\<close> of the Go library: an optional sign, then one or more decimal digits,
  and a value that fits a 64-bit \<^verbatim>\<open>int\<close>; anything else is a \<^verbatim>\<open>NumError\<close> for the string.
\<close>

datatype num_error = ErrSyntax string | ErrRange string

definition is_digit :: "char \<Rightarrow> bool" where
  "is_digit c \<longleftrightarrow> (48::nat) \<le> of_char c \<and> of_char c \<le> (57::nat)"

definition digits_value :: "string \<Rightarrow> int" where
  "digits_value s = foldl (\<lambda>n ch. n * 10 + (int (of_char ch) - 48)) 0 s"

definition strconv_Atoi :: "string \<Rightarrow> num_error + int" where
  "strconv_Atoi s =
     (let signed = (s \<noteq> [] \<and> (hd s = CHR ''-'' \<or> hd s = CHR ''+''));
          digits = (if signed then tl s else s)
      in if digits = [] \<or> \<not> list_all is_digit digits then Inl (ErrSyntax s)
         else
           let n = (if s \<noteq> [] \<and> hd s = CHR ''-'' then - digits_value digits
                    else digits_value digits)
           in if n < - (2 ^ 63) \<or> 2 ^ 63 - 1 < n then Inl (ErrRange s) else Inr n)"

text \<open>The loop of lines 289-295: the first string that does not parse ends it.\<close>

fun parse_droplets :: "string list \<Rightarrow> int list \<Rightarrow> num_error + int list" where
  "parse_droplets [] droplets = Inr droplets"
| "parse_droplets (id' # rest) droplets =
     (case strconv_Atoi id' of
        Inl err \<Rightarrow> Inl err
      | Inr i \<Rightarrow> parse_droplets rest (droplets @ [i]))"

text \<open>Lines 316-388: every declared rule is copied into the request, list by list.\<close>

definition expand_rule :: "rule \<Rightarrow> rule" where
  "expand_rule r =
     \<lparr>protocol = protocol r, port_range = port_range r,
      party_droplet_ids = foldl (\<lambda>xs x. xs @ [x]) [] (party_droplet_ids r),
      party_tags = foldl (\<lambda>xs x. xs @ [x]) [] (party_tags r),
      party_addresses = foldl (\<lambda>xs x. xs @ [x]) [] (party_addresses r),
      party_load_balancer_uids = foldl (\<lambda>xs x. xs @ [x]) [] (party_load_balancer_uids r)\<rparr>"

definition expandFirewallInboundRules :: "resource_data \<Rightarrow> rule list" where
  "expandFirewallInboundRules d = foldl (\<lambda>rules r. rules @ [expand_rule r]) [] (inbound_rule d)"

definition expandFirewallOutboundRules :: "resource_data \<Rightarrow> rule list" where
  "expandFirewallOutboundRules d = foldl (\<lambda>rules r. rules @ [expand_rule r]) [] (outbound_rule d)"

text \<open>\<^verbatim>\<open>d.GetOk\<close> of a list answers \<^verbatim>\<open>ok\<close> exactly when the list is not empty.\<close>

definition firewallRequest :: "resource_data \<Rightarrow> num_error + firewall_request" where
  "firewallRequest d =
     (let opts = \<lparr>req_Name = name d, req_DropletIDs = [], req_Tags = [],
                  req_InboundRules = [], req_OutboundRules = []\<rparr>
      in case (if droplet_ids d \<noteq> []
               then (case parse_droplets (droplet_ids d) [] of
                       Inl err \<Rightarrow> Inl err
                     | Inr droplets \<Rightarrow> Inr (opts\<lparr>req_DropletIDs := droplets\<rparr>))
               else Inr opts) of
           Inl err \<Rightarrow> Inl err
         | Inr opts1 \<Rightarrow>
             let opts2 = (if tags d \<noteq> [] then opts1\<lparr>req_Tags := tags d\<rparr> else opts1);
                 opts3 = opts2\<lparr>req_InboundRules := expandFirewallInboundRules d\<rparr>
             in Inr (opts3\<lparr>req_OutboundRules := expandFirewallOutboundRules d\<rparr>))"

subsection \<open>The remote API and the five operations (lines 165-279)\<close>

text \<open>
  A call of the client either succeeds with a value or fails. A failure carries the status
  code of the HTTP response, if there is a response (\<^verbatim>\<open>resp\<close> may be nil), and the text of
  the error (\<^verbatim>\<open>err.Error()\<close>). The client is a parameter: four functions giving the answer
  of the remote side to each call.
\<close>

datatype 'a api_result = Ok 'a | Failed "int option" string

record client =
  Firewalls_Create :: "firewall_request \<Rightarrow> firewall api_result"
  Firewalls_Get :: "string \<Rightarrow> firewall api_result"
  Firewalls_Update :: "string \<Rightarrow> firewall_request \<Rightarrow> firewall api_result"
  Firewalls_Delete :: "string \<Rightarrow> unit api_result"

datatype api_call =
  Call_Create firewall_request
| Call_Get string
| Call_Update string firewall_request
| Call_Delete string

datatype error =
  Error_in_firewall_request num_error
| Error_creating_firewall string
| Error_retrieving_firewall string
| Error_updating_firewall string
| Error_deleting_firewall string
| Error_setting_inbound_rule string
| Error_setting_outbound_rule string

text \<open>What an operation leaves behind: the error it returns, if any, the local state, and
  the remote calls it made, in order.\<close>

record outcome =
  err :: "error option"
  state :: resource_data
  calls :: "api_call list"

text \<open>
  \<^verbatim>\<open>d.Set(key, value)\<close> for a string value. A key that is not a field of the schema is
  refused by the store with an error; where the caller drops that error, as lines 204-209
  do, nothing is written.
\<close>

definition Set_string :: "string \<Rightarrow> string \<Rightarrow> resource_data \<Rightarrow> resource_data" where
  "Set_string key v d =
     (if key = ''status'' then d\<lparr>status := v\<rparr>
      else if key = ''created_at'' then d\<lparr>created_at := v\<rparr>
      else if key = ''name'' then d\<lparr>name := v\<rparr>
      else d)"

definition SetId :: "string \<Rightarrow> resource_data \<Rightarrow> resource_data" where
  "SetId v d = d\<lparr>resource_id := v\<rparr>"

definition firewallPendingChanges :: "firewall \<Rightarrow> pending_change list" where
  "firewallPendingChanges fw =
     foldl (\<lambda>remote change.
              remote @ [\<lparr>pc_droplet_id = pc_droplet_id change,
                         pc_removing = pc_removing change,
                         pc_status = pc_status change\<rparr>])
           [] (PendingChanges fw)"

text \<open>\<^verbatim>\<open>strings.Contains\<close>.\<close>

fun strings_Contains :: "string \<Rightarrow> string \<Rightarrow> bool" where
  "strings_Contains [] substr = (substr = [])"
| "strings_Contains (c # s) substr = (prefix substr (c # s) \<or> strings_Contains s substr)"

definition resourceDigitalOceanFirewallRead :: "runtime \<Rightarrow> client \<Rightarrow> resource_data \<Rightarrow> outcome" where
  "resourceDigitalOceanFirewallRead rt cl d =
     (case Firewalls_Get cl (resource_id d) of
        Failed resp e \<Rightarrow>
          if resp \<noteq> None \<and> resp = Some 404
          then \<lparr>err = None, state = SetId '''' d, calls = [Call_Get (resource_id d)]\<rparr>
          else \<lparr>err = Some (Error_retrieving_firewall e), state = d,
                calls = [Call_Get (resource_id d)]\<rparr>
      | Ok fw \<Rightarrow>
          let d1 = Set_string ''status'' (Status fw) d;
              d2 = Set_string ''create_at'' (Created fw) d1;
              d3 = d2\<lparr>pending_changes := firewallPendingChanges fw\<rparr>;
              d4 = Set_string ''name'' (Name fw) d3;
              d5 = d4\<lparr>droplet_ids := Set_droplet_ids rt (DropletIDs fw) (droplet_ids d4)\<rparr>;
              d6 = d5\<lparr>tags := Tags fw\<rparr>;
              inbound = flattenFirewallInboundRules rt d6 (InboundRules fw)
          in case Set_rules_error rt ''inbound_rule'' inbound of
               Some e \<Rightarrow> \<lparr>err = Some (Error_setting_inbound_rule e), state = d6,
                          calls = [Call_Get (resource_id d)]\<rparr>
             | None \<Rightarrow>
                 let d7 = d6\<lparr>inbound_rule := inbound\<rparr>;
                     outbound = flattenFirewallOutboundRules rt d7 (OutboundRules fw)
                 in case Set_rules_error rt ''outbound_rule'' outbound of
                      Some e \<Rightarrow> \<lparr>err = Some (Error_setting_outbound_rule e), state = d7,
                                 calls = [Call_Get (resource_id d)]\<rparr>
                    | None \<Rightarrow> \<lparr>err = None, state = d7\<lparr>outbound_rule := outbound\<rparr>,
                               calls = [Call_Get (resource_id d)]\<rparr>)"

definition resourceDigitalOceanFirewallCreate :: "runtime \<Rightarrow> client \<Rightarrow> resource_data \<Rightarrow> outcome" where
  "resourceDigitalOceanFirewallCreate rt cl d =
     (case firewallRequest d of
        Inl e \<Rightarrow> \<lparr>err = Some (Error_in_firewall_request e), state = d, calls = []\<rparr>
      | Inr opts \<Rightarrow>
          (case Firewalls_Create cl opts of
             Failed resp e \<Rightarrow>
               \<lparr>err = Some (Error_creating_firewall e), state = d, calls = [Call_Create opts]\<rparr>
           | Ok fw \<Rightarrow>
               let d1 = SetId (ID fw) d;
                   r = resourceDigitalOceanFirewallRead rt cl d1
               in r\<lparr>calls := Call_Create opts # calls r\<rparr>))"

definition resourceDigitalOceanFirewallUpdate :: "runtime \<Rightarrow> client \<Rightarrow> resource_data \<Rightarrow> outcome" where
  "resourceDigitalOceanFirewallUpdate rt cl d =
     (case firewallRequest d of
        Inl e \<Rightarrow> \<lparr>err = Some (Error_in_firewall_request e), state = d, calls = []\<rparr>
      | Inr opts \<Rightarrow>
          (case Firewalls_Update cl (resource_id d) opts of
             Failed resp e \<Rightarrow>
               \<lparr>err = Some (Error_updating_firewall e), state = d,
                calls = [Call_Update (resource_id d) opts]\<rparr>
           | Ok fw \<Rightarrow>
               let r = resourceDigitalOceanFirewallRead rt cl d
               in r\<lparr>calls := Call_Update (resource_id d) opts # calls r\<rparr>))"

definition resourceDigitalOceanFirewallDelete :: "client \<Rightarrow> resource_data \<Rightarrow> outcome" where
  "resourceDigitalOceanFirewallDelete cl d =
     (case Firewalls_Delete cl (resource_id d) of
        Failed resp e \<Rightarrow>
          if strings_Contains e ''404 Not Found''
          then \<lparr>err = None, state = d, calls = [Call_Delete (resource_id d)]\<rparr>
          else \<lparr>err = Some (Error_deleting_firewall e), state = d,
                calls = [Call_Delete (resource_id d)]\<rparr>
      | Ok u \<Rightarrow> \<lparr>err = None, state = d, calls = [Call_Delete (resource_id d)]\<rparr>)"

definition resourceDigitalOceanFirewallExists :: "client \<Rightarrow> resource_data \<Rightarrow> bool \<times> outcome" where
  "resourceDigitalOceanFirewallExists cl d =
     (case Firewalls_Get cl (resource_id d) of
        Failed resp e \<Rightarrow>
          if resp \<noteq> None \<and> resp = Some 404
          then (False, \<lparr>err = None, state = SetId '''' d, calls = [Call_Get (resource_id d)]\<rparr>)
          else (False, \<lparr>err = Some (Error_retrieving_firewall e), state = d,
                        calls = [Call_Get (resource_id d)]\<rparr>)
      | Ok fw \<Rightarrow> (True, \<lparr>err = None, state = d, calls = [Call_Get (resource_id d)]\<rparr>))"

subsection \<open>A concrete runtime\<close>

text \<open>A runtime that hands out the entries of a map or set in the reverse of their
  insertion order, whose store accepts every rule list and keeps \<^verbatim>\<open>droplet_ids\<close> as it
  was.\<close>

definition reversing_runtime :: runtime where
  "reversing_runtime =
     \<lparr>range_ints = rev, set_List = rev, range_rules = rev,
      Set_rules_error = (\<lambda>key v. None), Set_droplet_ids = (\<lambda>v old. old)\<rparr>"

subsection \<open>Concrete states, firewalls and clients\<close>

definition web_rule :: rule where
  "web_rule = \<lparr>protocol = ''tcp'', port_range = ''80'', party_droplet_ids = [],
                party_tags = [], party_addresses = [''0.0.0.0/0''],
                party_load_balancer_uids = []\<rparr>"

definition ssh_rule :: rule where
  "ssh_rule = \<lparr>protocol = ''tcp'', port_range = ''22'', party_droplet_ids = [],
                party_tags = [], party_addresses = [''10.0.0.0/8''],
                party_load_balancer_uids = []\<rparr>"

text \<open>A state before its first Create, and the same state with a droplet id that is not
  a number.\<close>

definition new_state :: resource_data where
  "new_state = \<lparr>resource_id = '''', status = '''', created_at = '''', pending_changes = [],
                 name = ''web'', droplet_ids = [], tags = [],
                 inbound_rule = [web_rule], outbound_rule = []\<rparr>"

definition bad_state :: resource_data where
  "bad_state = new_state\<lparr>droplet_ids := [''123'', ''abc'']\<rparr>"

definition web_firewall :: firewall where
  "web_firewall = \<lparr>ID = ''fw-1'', Name = ''web'', Status = ''waiting'',
                    Created = ''2017-05-23T21:23:59Z'', PendingChanges = [],
                    DropletIDs = [], Tags = [], InboundRules = [web_rule],
                    OutboundRules = []\<rparr>"

text \<open>A remote side where every call succeeds; one that creates the firewall and then
  fails to answer the Get; one on which the firewall is gone.\<close>

definition healthy_client :: client where
  "healthy_client =
     \<lparr>Firewalls_Create = (\<lambda>opts. Ok web_firewall),
      Firewalls_Get = (\<lambda>id'. Ok web_firewall),
      Firewalls_Update = (\<lambda>id' opts. Ok web_firewall),
      Firewalls_Delete = (\<lambda>id'. Ok ())\<rparr>"

definition flaky_client :: client where
  "flaky_client =
     \<lparr>Firewalls_Create = (\<lambda>opts. Ok web_firewall),
      Firewalls_Get = (\<lambda>id'. Failed None ''connection reset''),
      Firewalls_Update = (\<lambda>id' opts. Failed (Some 500) ''500 Server Error''),
      Firewalls_Delete = (\<lambda>id'. Failed (Some 500) ''500 Server Error'')\<rparr>"

definition gone_client :: client where
  "gone_client =
     \<lparr>Firewalls_Create = (\<lambda>opts. Ok web_firewall),
      Firewalls_Get = (\<lambda>id'. Failed (Some 404) ''404 Not Found''),
      Firewalls_Update = (\<lambda>id' opts. Failed (Some 404) ''404 Not Found''),
      Firewalls_Delete = (\<lambda>id'. Failed (Some 404) ''404 Not Found'')\<rparr>"

text \<open>Two rules whose keys differ and whose fingerprinted strings are both "tcp-1-2".\<close>

definition range_rule :: rule where
  "range_rule = \<lparr>protocol = ''tcp'', port_range = ''1-2'', party_droplet_ids = [],
                  party_tags = [], party_addresses = [''10.0.0.0/8''],
                  party_load_balancer_uids = []\<rparr>"

definition dash_rule :: rule where
  "dash_rule = \<lparr>protocol = ''tcp-1'', port_range = ''2'', party_droplet_ids = [],
                 party_tags = [], party_addresses = [''192.168.0.0/16''],
                 party_load_balancer_uids = []\<rparr>"

section \<open>Properties\<close>

subsection \<open>The list reconciler\<close>



lemma first_occurrences_set [simp]: "set (first_occurrences xs) = set xs"
  by (induction xs rule: first_occurrences.induct) auto

lemma first_occurrences_distinct [simp]: "distinct (first_occurrences xs)"
  by (induction xs rule: first_occurrences.induct) auto




lemma admissible_range_rules:
  "admissible rt \<Longrightarrow> mset (range_rules rt xs) = mset xs"
  by (simp add: admissible_def)

lemma rearranged_set: "mset ys = mset xs \<Longrightarrow> set ys = set xs"
  by (rule mset_eq_setD)

lemma rearranged_distinct: "mset ys = mset xs \<Longrightarrow> distinct ys = distinct xs"
  by (metis distinct_count_atmost_1 set_mset_mset)

lemma rearranged_Nil: "mset ys = mset [] \<Longrightarrow> ys = []"
  by simp

lemma fold_insert_set [simp]: "set (fold List.insert xs ys) = set xs \<union> set ys"
  using set_union [of xs ys] by (simp add: List.union_def)

lemma fold_insert_distinct [simp]: "distinct (fold List.insert xs ys) = distinct ys"
  using distinct_union [of xs ys] by (simp add: List.union_def)



lemma admissible_reversing_runtime: "admissible reversing_runtime"
  by (simp add: admissible_def reversing_runtime_def)

lemma reversing_runtime_sel:
  "range_ints reversing_runtime = rev"
  "set_List reversing_runtime = rev"
  "range_rules reversing_runtime = rev"
  "Set_rules_error reversing_runtime = (\<lambda>key v. None)"
  "Set_droplet_ids reversing_runtime = (\<lambda>v old. old)"
  by (simp_all add: reversing_runtime_def)

subsection \<open>Claim C4: diff suppression of the port range\<close>

text \<open>
  C4 (as stated, refuted). The claim lets the predicate suppress the diff of "0" against
  "all" in either order. The guard of lines 89 and 132 tests one order only: with the old
  value "all" and the new value "0" the predicate answers false.
\<close>

theorem port_range_suppress_not_symmetric:
  "\<not> inbound_port_range_DiffSuppressFunc ''port_range'' ''all'' ''0'' \<and>
   \<not> outbound_port_range_DiffSuppressFunc ''port_range'' ''all'' ''0''"
  by (simp add: inbound_port_range_DiffSuppressFunc_def outbound_port_range_DiffSuppressFunc_def)

text \<open>
  C4 (amended). The predicate suppresses the diff exactly when the old value is "0" and
  the new value is "all", or the two values are equal; so it is true at ("0", "all"),
  false at ("80", "443") and true at ("80", "80").
\<close>

theorem port_range_suppress_iff:
  "inbound_port_range_DiffSuppressFunc k oldV newV
     = ((oldV = ''0'' \<and> newV = ''all'') \<or> oldV = newV) \<and>
   outbound_port_range_DiffSuppressFunc k oldV newV
     = ((oldV = ''0'' \<and> newV = ''all'') \<or> oldV = newV) \<and>
   inbound_port_range_DiffSuppressFunc k ''0'' ''all'' \<and>
   \<not> inbound_port_range_DiffSuppressFunc k ''80'' ''443'' \<and>
   inbound_port_range_DiffSuppressFunc k ''80'' ''80'' \<and>
   outbound_port_range_DiffSuppressFunc k ''0'' ''all'' \<and>
   \<not> outbound_port_range_DiffSuppressFunc k ''80'' ''443'' \<and>
   outbound_port_range_DiffSuppressFunc k ''80'' ''80''"
  by (auto simp add: inbound_port_range_DiffSuppressFunc_def
        outbound_port_range_DiffSuppressFunc_def)

subsection \<open>Claim C2: the list reconciler\<close>



subsection \<open>Claim C5: the fast path for an empty side\<close>

lemma rawRule_id [simp]: "rawRule r = r"
  by (simp add: rawRule_def)

lemma map_rawRule [simp]: "map rawRule R = R"
  by (induction R) simp_all

text \<open>
  C5. With no local rules the reconciler returns the remote rules as they are, in their
  order; with no remote rules it returns the empty list, whatever the local rules. This
  holds for the inbound and for the outbound reconciler.
\<close>

theorem flatten_empty_side:
  "flattenFirewallInboundRules rt (d\<lparr>inbound_rule := []\<rparr>) R = R \<and>
   flattenFirewallOutboundRules rt (d\<lparr>outbound_rule := []\<rparr>) R = R \<and>
   flattenFirewallInboundRules rt d [] = [] \<and>
   flattenFirewallOutboundRules rt d [] = []"
  by (simp add: flattenFirewallInboundRules_def flattenFirewallOutboundRules_def)

subsection \<open>Claim C8: a droplet id that is not a number\<close>

lemma parse_droplets_fails:
  "\<exists>s\<in>set xs. \<exists>e. strconv_Atoi s = Inl e \<Longrightarrow>
   \<exists>e. parse_droplets xs acc = Inl e \<and> (\<exists>s\<in>set xs. strconv_Atoi s = Inl e)"
proof (induction xs arbitrary: acc)
  case Nil
  then show ?case by simp
next
  case (Cons x xs)
  show ?case
  proof (cases "strconv_Atoi x")
    case (Inl e)
    then show ?thesis by auto
  next
    case (Inr i)
    with Cons.prems have "\<exists>s\<in>set xs. \<exists>e. strconv_Atoi s = Inl e"
      by auto
    from Cons.IH [OF this, of "acc @ [i]"] Inr show ?thesis
      by auto
  qed
qed

lemma firewallRequest_fails:
  assumes "\<exists>s\<in>set (droplet_ids d). \<exists>e. strconv_Atoi s = Inl e"
  shows "\<exists>e. firewallRequest d = Inl e \<and> (\<exists>s\<in>set (droplet_ids d). strconv_Atoi s = Inl e)"
proof -
  from assms have ne: "droplet_ids d \<noteq> []"
    by auto
  from parse_droplets_fails [OF assms, of "[]"] obtain e where
    e: "parse_droplets (droplet_ids d) [] = Inl e" "\<exists>s\<in>set (droplet_ids d). strconv_Atoi s = Inl e"
    by blast
  have "firewallRequest d = Inl e"
    using ne e(1) by (simp add: firewallRequest_def)
  with e(2) show ?thesis by blast
qed

text \<open>
  C8. If some entry of \<^verbatim>\<open>droplet_ids\<close> is not accepted by \<^verbatim>\<open>strconv.Atoi\<close>, Create and
  Update both return the error "Error in firewall request" wrapping the parse error of
  such an entry, make no remote call and leave the state as it was.
\<close>

theorem bad_droplet_id_fails_before_any_call:
  assumes "\<exists>s\<in>set (droplet_ids d). \<exists>e. strconv_Atoi s = Inl e"
  shows "\<exists>e. (\<exists>s\<in>set (droplet_ids d). strconv_Atoi s = Inl e)
           \<and> resourceDigitalOceanFirewallCreate rt cl d
               = \<lparr>err = Some (Error_in_firewall_request e), state = d, calls = []\<rparr>
           \<and> resourceDigitalOceanFirewallUpdate rt cl d
               = \<lparr>err = Some (Error_in_firewall_request e), state = d, calls = []\<rparr>"
proof -
  from firewallRequest_fails [OF assms] obtain e where
    e: "firewallRequest d = Inl e" "\<exists>s\<in>set (droplet_ids d). strconv_Atoi s = Inl e"
    by blast
  have "resourceDigitalOceanFirewallCreate rt cl d
          = \<lparr>err = Some (Error_in_firewall_request e), state = d, calls = []\<rparr>"
    using e(1) by (simp add: resourceDigitalOceanFirewallCreate_def)
  moreover have "resourceDigitalOceanFirewallUpdate rt cl d
          = \<lparr>err = Some (Error_in_firewall_request e), state = d, calls = []\<rparr>"
    using e(1) by (simp add: resourceDigitalOceanFirewallUpdate_def)
  ultimately show ?thesis using e(2) by blast
qed

lemma Atoi_123: "strconv_Atoi ''123'' = Inr 123"
  by (simp add: strconv_Atoi_def is_digit_def digits_value_def)

lemma Atoi_abc: "strconv_Atoi ''abc'' = Inl (ErrSyntax ''abc'')"
  by (simp add: strconv_Atoi_def is_digit_def)

lemma bad_state_request: "firewallRequest bad_state = Inl (ErrSyntax ''abc'')"
  by (simp add: firewallRequest_def bad_state_def Atoi_123 Atoi_abc)

theorem bad_droplet_id_witness:
  "droplet_ids bad_state = [''123'', ''abc''] \<and>
   strconv_Atoi ''abc'' = Inl (ErrSyntax ''abc'') \<and>
   resourceDigitalOceanFirewallCreate reversing_runtime healthy_client bad_state
     = \<lparr>err = Some (Error_in_firewall_request (ErrSyntax ''abc'')), state = bad_state,
        calls = []\<rparr> \<and>
   resourceDigitalOceanFirewallUpdate reversing_runtime healthy_client bad_state
     = \<lparr>err = Some (Error_in_firewall_request (ErrSyntax ''abc'')), state = bad_state,
        calls = []\<rparr>"
proof -
  have h: "\<exists>s\<in>set (droplet_ids bad_state). \<exists>e. strconv_Atoi s = Inl e"
    by (simp add: bad_state_def Atoi_abc)
  have ids: "droplet_ids bad_state = [''123'', ''abc'']"
    by (simp add: bad_state_def)
  from bad_droplet_id_fails_before_any_call [OF h, of reversing_runtime healthy_client]
  show ?thesis using h ids
    by (simp add: resourceDigitalOceanFirewallCreate_def resourceDigitalOceanFirewallUpdate_def
          bad_state_request Atoi_abc)
qed

subsection \<open>Claim C9: not found is not a failure\<close>


lemma gone_client_sel:
  "Firewalls_Get gone_client = (\<lambda>id'. Failed (Some 404) ''404 Not Found'')"
  "Firewalls_Delete gone_client = (\<lambda>id'. Failed (Some 404) ''404 Not Found'')"
  by (simp_all add: gone_client_def)


subsection \<open>Claim C6: the scalar fields after a successful Read\<close>

lemma Read_keeps_created_at:
  "created_at (state (resourceDigitalOceanFirewallRead rt cl d)) = created_at d"
  by (simp add: resourceDigitalOceanFirewallRead_def Set_string_def SetId_def Let_def
        split: api_result.split option.split)

lemma Read_sets_status_name_tags:
  assumes "Firewalls_Get cl (resource_id d) = Ok fw"
    and "err (resourceDigitalOceanFirewallRead rt cl d) = None"
  shows "status (state (resourceDigitalOceanFirewallRead rt cl d)) = Status fw
       \<and> name (state (resourceDigitalOceanFirewallRead rt cl d)) = Name fw
       \<and> tags (state (resourceDigitalOceanFirewallRead rt cl d)) = Tags fw"
  using assms
  by (simp add: resourceDigitalOceanFirewallRead_def Set_string_def Let_def
        split: option.splits)

text \<open>
  C6 (the code departs from the claim). Line 205 writes the creation time under the key
  \<^verbatim>\<open>create_at\<close>, which the schema does not have (line 33 declares \<^verbatim>\<open>created_at\<close>): a Read
  of a fresh state against a firewall created at 2017-05-23T21:23:59Z succeeds, sets
  status and name, and leaves \<^verbatim>\<open>created_at\<close> empty.
\<close>

theorem Read_does_not_store_created_at:
  "Firewalls_Get healthy_client (resource_id (SetId ''fw-1'' new_state)) = Ok web_firewall \<and>
   err (resourceDigitalOceanFirewallRead reversing_runtime healthy_client
          (SetId ''fw-1'' new_state)) = None \<and>
   status (state (resourceDigitalOceanFirewallRead reversing_runtime healthy_client
          (SetId ''fw-1'' new_state))) = Status web_firewall \<and>
   created_at (state (resourceDigitalOceanFirewallRead reversing_runtime healthy_client
          (SetId ''fw-1'' new_state))) = '''' \<and>
   Created web_firewall = ''2017-05-23T21:23:59Z''"
  by (simp add: resourceDigitalOceanFirewallRead_def Set_string_def SetId_def Let_def
        healthy_client_def reversing_runtime_sel new_state_def web_firewall_def
        flattenFirewallInboundRules_def flattenFirewallOutboundRules_def)

subsection \<open>Claim C7: the state after a failing operation\<close>

text \<open>
  C7 (as stated, refuted). Create assigns the id in line 181, before the Read of line 185.
  When the remote Create succeeds and the Get of that Read fails, Create returns the error
  of the Read and the state holds the new id.
\<close>

theorem Create_failing_in_Read_keeps_new_id:
  "err (resourceDigitalOceanFirewallCreate reversing_runtime flaky_client new_state)
     = Some (Error_retrieving_firewall ''connection reset'') \<and>
   state (resourceDigitalOceanFirewallCreate reversing_runtime flaky_client new_state)
     = new_state\<lparr>resource_id := ''fw-1''\<rparr> \<and>
   state (resourceDigitalOceanFirewallCreate reversing_runtime flaky_client new_state)
     \<noteq> new_state"
  by (simp add: resourceDigitalOceanFirewallCreate_def resourceDigitalOceanFirewallRead_def
        firewallRequest_def flaky_client_def new_state_def web_firewall_def SetId_def Let_def)

text \<open>
  C7 (amended). An operation that fails before its first write to the state leaves the
  state as it was: Create failing in the request or in the remote Create; Read failing in
  the remote Get; Update failing in the request, in the remote Update or in the remote Get
  of its Read; every failing Delete; every failing Exists. On the not-found path, Read and
  Exists clear the id and return no error.
\<close>

theorem failing_operation_keeps_state:
  "(err (resourceDigitalOceanFirewallCreate rt cl d) = Some (Error_in_firewall_request e1)
      \<longrightarrow> state (resourceDigitalOceanFirewallCreate rt cl d) = d) \<and>
   (err (resourceDigitalOceanFirewallCreate rt cl d) = Some (Error_creating_firewall e2)
      \<longrightarrow> state (resourceDigitalOceanFirewallCreate rt cl d) = d) \<and>
   (err (resourceDigitalOceanFirewallRead rt cl d) = Some (Error_retrieving_firewall e3)
      \<longrightarrow> state (resourceDigitalOceanFirewallRead rt cl d) = d) \<and>
   (err (resourceDigitalOceanFirewallUpdate rt cl d) = Some (Error_in_firewall_request e4)
      \<longrightarrow> state (resourceDigitalOceanFirewallUpdate rt cl d) = d) \<and>
   (err (resourceDigitalOceanFirewallUpdate rt cl d) = Some (Error_updating_firewall e5)
      \<longrightarrow> state (resourceDigitalOceanFirewallUpdate rt cl d) = d) \<and>
   (err (resourceDigitalOceanFirewallUpdate rt cl d) = Some (Error_retrieving_firewall e6)
      \<longrightarrow> state (resourceDigitalOceanFirewallUpdate rt cl d) = d) \<and>
   (err (resourceDigitalOceanFirewallDelete cl d) \<noteq> None
      \<longrightarrow> state (resourceDigitalOceanFirewallDelete cl d) = d) \<and>
   (err (snd (resourceDigitalOceanFirewallExists cl d)) \<noteq> None
      \<longrightarrow> state (snd (resourceDigitalOceanFirewallExists cl d)) = d) \<and>
   (Firewalls_Get cl (resource_id d) = Failed (Some 404) e7
      \<longrightarrow> err (resourceDigitalOceanFirewallRead rt cl d) = None
        \<and> state (resourceDigitalOceanFirewallRead rt cl d) = SetId '''' d
        \<and> err (snd (resourceDigitalOceanFirewallExists cl d)) = None
        \<and> state (snd (resourceDigitalOceanFirewallExists cl d)) = SetId '''' d)"
proof -
  have r: "err (resourceDigitalOceanFirewallRead rt cl d') = Some (Error_retrieving_firewall x)
             \<Longrightarrow> state (resourceDigitalOceanFirewallRead rt cl d') = d'" for d' x
    by (auto simp add: resourceDigitalOceanFirewallRead_def Let_def
          split: api_result.splits option.splits if_splits)
  have rq: "err (resourceDigitalOceanFirewallRead rt cl d') \<noteq> Some (Error_in_firewall_request n)"
    "err (resourceDigitalOceanFirewallRead rt cl d') \<noteq> Some (Error_creating_firewall x)"
    "err (resourceDigitalOceanFirewallRead rt cl d') \<noteq> Some (Error_updating_firewall x)"
    for d' x n
    by (simp_all add: resourceDigitalOceanFirewallRead_def Let_def
          split: api_result.splits option.splits)
  have c1: "err (resourceDigitalOceanFirewallCreate rt cl d) = Some (Error_in_firewall_request e1)
      \<longrightarrow> state (resourceDigitalOceanFirewallCreate rt cl d) = d"
    using rq(1) by (simp add: resourceDigitalOceanFirewallCreate_def Let_def
          split: sum.splits api_result.splits)
  have c2: "err (resourceDigitalOceanFirewallCreate rt cl d) = Some (Error_creating_firewall e2)
      \<longrightarrow> state (resourceDigitalOceanFirewallCreate rt cl d) = d"
    using rq(2) by (simp add: resourceDigitalOceanFirewallCreate_def Let_def
          split: sum.splits api_result.splits)
  have u1: "err (resourceDigitalOceanFirewallUpdate rt cl d) = Some (Error_in_firewall_request e4)
      \<longrightarrow> state (resourceDigitalOceanFirewallUpdate rt cl d) = d"
    using rq(1) by (simp add: resourceDigitalOceanFirewallUpdate_def Let_def
          split: sum.splits api_result.splits)
  have u2: "err (resourceDigitalOceanFirewallUpdate rt cl d) = Some (Error_updating_firewall e5)
      \<longrightarrow> state (resourceDigitalOceanFirewallUpdate rt cl d) = d"
    using rq(3) by (simp add: resourceDigitalOceanFirewallUpdate_def Let_def
          split: sum.splits api_result.splits)
  have u3: "err (resourceDigitalOceanFirewallUpdate rt cl d) = Some (Error_retrieving_firewall e6)
      \<longrightarrow> state (resourceDigitalOceanFirewallUpdate rt cl d) = d"
    using r [of d e6] by (simp add: resourceDigitalOceanFirewallUpdate_def Let_def
          split: sum.splits api_result.splits)
  have dl: "state (resourceDigitalOceanFirewallDelete cl d) = d"
    by (simp add: resourceDigitalOceanFirewallDelete_def split: api_result.splits)
  have ex: "err (snd (resourceDigitalOceanFirewallExists cl d)) \<noteq> None
      \<longrightarrow> state (snd (resourceDigitalOceanFirewallExists cl d)) = d"
    by (simp add: resourceDigitalOceanFirewallExists_def split: api_result.splits)
  have nf: "Firewalls_Get cl (resource_id d) = Failed (Some 404) e7
      \<longrightarrow> err (resourceDigitalOceanFirewallRead rt cl d) = None
        \<and> state (resourceDigitalOceanFirewallRead rt cl d) = SetId '''' d
        \<and> err (snd (resourceDigitalOceanFirewallExists cl d)) = None
        \<and> state (snd (resourceDigitalOceanFirewallExists cl d)) = SetId '''' d"
    by (simp add: resourceDigitalOceanFirewallRead_def resourceDigitalOceanFirewallExists_def)
  from c1 c2 r [of d e3] u1 u2 u3 dl ex nf show ?thesis by blast
qed

lemma flaky_client_sel:
  "Firewalls_Create flaky_client = (\<lambda>opts. Ok web_firewall)"
  "Firewalls_Get flaky_client = (\<lambda>id'. Failed None ''connection reset'')"
  "Firewalls_Update flaky_client = (\<lambda>id' opts. Failed (Some 500) ''500 Server Error'')"
  "Firewalls_Delete flaky_client = (\<lambda>id'. Failed (Some 500) ''500 Server Error'')"
  by (simp_all add: flaky_client_def)

lemma new_state_request: "\<exists>opts. firewallRequest (SetId i new_state) = Inr opts"
  by (simp add: firewallRequest_def new_state_def SetId_def)

theorem failing_operation_witness:
  "err (resourceDigitalOceanFirewallCreate reversing_runtime flaky_client bad_state)
     = Some (Error_in_firewall_request (ErrSyntax ''abc'')) \<and>
   state (resourceDigitalOceanFirewallCreate reversing_runtime flaky_client bad_state)
     = bad_state \<and>
   err (resourceDigitalOceanFirewallRead reversing_runtime flaky_client (SetId ''fw-1'' new_state))
     = Some (Error_retrieving_firewall ''connection reset'') \<and>
   state (resourceDigitalOceanFirewallRead reversing_runtime flaky_client (SetId ''fw-1'' new_state))
     = SetId ''fw-1'' new_state \<and>
   err (resourceDigitalOceanFirewallUpdate reversing_runtime flaky_client (SetId ''fw-1'' new_state))
     = Some (Error_updating_firewall ''500 Server Error'') \<and>
   state (resourceDigitalOceanFirewallUpdate reversing_runtime flaky_client (SetId ''fw-1'' new_state))
     = SetId ''fw-1'' new_state \<and>
   err (resourceDigitalOceanFirewallDelete flaky_client (SetId ''fw-1'' new_state))
     = Some (Error_deleting_firewall ''500 Server Error'') \<and>
   state (resourceDigitalOceanFirewallDelete flaky_client (SetId ''fw-1'' new_state))
     = SetId ''fw-1'' new_state \<and>
   err (snd (resourceDigitalOceanFirewallExists flaky_client (SetId ''fw-1'' new_state)))
     = Some (Error_retrieving_firewall ''connection reset'') \<and>
   state (snd (resourceDigitalOceanFirewallExists flaky_client (SetId ''fw-1'' new_state)))
     = SetId ''fw-1'' new_state \<and>
   Firewalls_Get gone_client (resource_id (SetId ''fw-1'' new_state))
     = Failed (Some 404) ''404 Not Found'' \<and>
   state (resourceDigitalOceanFirewallRead reversing_runtime gone_client (SetId ''fw-1'' new_state))
     = new_state"
proof -
  obtain opts where opts: "firewallRequest (SetId ''fw-1'' new_state) = Inr opts"
    using new_state_request by blast
  have e1: "err (resourceDigitalOceanFirewallCreate reversing_runtime flaky_client bad_state)
     = Some (Error_in_firewall_request (ErrSyntax ''abc''))"
    by (simp add: resourceDigitalOceanFirewallCreate_def bad_state_request)
  have e3: "err (resourceDigitalOceanFirewallRead reversing_runtime flaky_client
       (SetId ''fw-1'' new_state)) = Some (Error_retrieving_firewall ''connection reset'')"
    by (simp add: resourceDigitalOceanFirewallRead_def flaky_client_sel)
  have e5: "err (resourceDigitalOceanFirewallUpdate reversing_runtime flaky_client
       (SetId ''fw-1'' new_state)) = Some (Error_updating_firewall ''500 Server Error'')"
    by (simp add: resourceDigitalOceanFirewallUpdate_def flaky_client_sel opts)
  have e7: "err (resourceDigitalOceanFirewallDelete flaky_client (SetId ''fw-1'' new_state))
     = Some (Error_deleting_firewall ''500 Server Error'')"
    by (simp add: resourceDigitalOceanFirewallDelete_def flaky_client_sel)
  have e8: "err (snd (resourceDigitalOceanFirewallExists flaky_client (SetId ''fw-1'' new_state)))
     = Some (Error_retrieving_firewall ''connection reset'')"
    by (simp add: resourceDigitalOceanFirewallExists_def flaky_client_sel)
  have g: "Firewalls_Get gone_client (resource_id (SetId ''fw-1'' new_state))
     = Failed (Some 404) ''404 Not Found''"
    by (simp add: gone_client_sel)
  have s0: "SetId '''' (SetId ''fw-1'' new_state) = new_state"
    by (simp add: SetId_def new_state_def)
  from failing_operation_keeps_state [where rt = reversing_runtime and cl = flaky_client
      and d = bad_state and ?e1.0 = "ErrSyntax ''abc''"]
    failing_operation_keeps_state [where rt = reversing_runtime and cl = flaky_client
      and d = "SetId ''fw-1'' new_state" and ?e3.0 = "''connection reset''"
      and ?e5.0 = "''500 Server Error''"]
    failing_operation_keeps_state [where rt = reversing_runtime and cl = gone_client
      and d = "SetId ''fw-1'' new_state" and ?e7.0 = "''404 Not Found''"]
    e1 e3 e5 e7 e8 g s0
  show ?thesis by simp
qed

subsection \<open>The rule reconciler\<close>

lemma first_by_subset: "set (first_by f xs) \<subseteq> set xs"
  by (induction f xs rule: first_by.induct) auto

lemma first_by_image: "f ` set (first_by f xs) = f ` set xs"
proof (induction f xs rule: first_by.induct)
  case (1 f)
  show ?case by simp
next
  case (2 f x xs)
  have "f ` set (x # xs) = insert (f x) (f ` set (filter (\<lambda>y. f y \<noteq> f x) xs))"
    by auto
  with 2 show ?case by simp
qed

lemma first_by_distinct: "distinct (map f (first_by f xs))"
proof (induction f xs rule: first_by.induct)
  case (1 f)
  show ?case by simp
next
  case (2 f x xs)
  have "f x \<notin> f ` set (first_by f (filter (\<lambda>y. f y \<noteq> f x) xs))"
    using first_by_subset [of f "filter (\<lambda>y. f y \<noteq> f x) xs"] by auto
  with 2 show ?case by simp
qed


lemma match_lists_key [simp]:
  "protocol (match_lists rt l r) = protocol l"
  "port_range (match_lists rt l r) = port_range l"
  by (simp_all add: match_lists_def Let_def)

lemma match_lists_fingerprint [simp]: "fingerprint (match_lists rt l r) = fingerprint l"
  by (simp add: fingerprint_def)

lemma match_lists_rule_key [simp]: "rule_key (match_lists rt l r) = rule_key l"
  by (simp add: rule_key_def)

lemma match_lists_fields:
  "party_droplet_ids (match_lists rt l r)
     = matchFirewallIntLists rt (party_droplet_ids l) (party_droplet_ids r)"
  "party_tags (match_lists rt l r) = matchFirewallStringLists rt (party_tags l) (party_tags r)"
  "party_addresses (match_lists rt l r)
     = matchFirewallStringLists rt (party_addresses l) (party_addresses r)"
  "party_load_balancer_uids (match_lists rt l r)
     = matchFirewallStringLists rt (party_load_balancer_uids l) (party_load_balancer_uids r)"
  by (simp_all add: match_lists_def Let_def)

text \<open>The map of lines 411-424.\<close>

lemma remote_map_alt:
  "remote_map R = foldl (\<lambda>M r. AList.update (fingerprint r) r M) [] R"
  by (simp add: remote_map_def fingerprint_def)

lemma update_entries: "set (AList.update k v al) \<subseteq> insert (k, v) (set al)"
  by (induction al) auto

lemma update_key_set: "fst ` set (AList.update k v al) = insert k (fst ` set al)"
  by (induction al) auto


lemma foldl_update_keys:
  "fst ` set (foldl (\<lambda>M r. AList.update (fingerprint r) r M) M0 R)
     = fst ` set M0 \<union> fingerprint ` set R"
proof (induction R arbitrary: M0)
  case Nil
  show ?case by simp
next
  case (Cons r R)
  have "fst ` set (AList.update (fingerprint r) r M0) = insert (fingerprint r) (fst ` set M0)"
    by (rule update_key_set)
  with Cons [of "AList.update (fingerprint r) r M0"] show ?case by auto
qed

lemma foldl_update_distinct:
  "distinct (map fst M0) \<Longrightarrow>
   distinct (map fst (foldl (\<lambda>M r. AList.update (fingerprint r) r M) M0 R))"
  by (induction R arbitrary: M0) (simp_all add: distinct_update)

lemma foldl_update_entries:
  "p \<in> set (foldl (\<lambda>M r. AList.update (fingerprint r) r M) M0 R) \<Longrightarrow>
   p \<in> set M0 \<or> (snd p \<in> set R \<and> fst p = fingerprint (snd p))"
proof (induction R arbitrary: M0)
  case Nil
  then show ?case by simp
next
  case (Cons r R)
  from Cons.IH [of "AList.update (fingerprint r) r M0"] Cons.prems
  have "p \<in> set (AList.update (fingerprint r) r M0)
          \<or> (snd p \<in> set R \<and> fst p = fingerprint (snd p))"
    by simp
  then show ?case using update_entries [of "fingerprint r" r M0] by auto
qed

lemma remote_map_keys: "fst ` set (remote_map R) = fingerprint ` set R"
  by (simp add: remote_map_alt foldl_update_keys)

lemma remote_map_distinct: "distinct (map fst (remote_map R))"
  by (simp add: remote_map_alt foldl_update_distinct)

lemma remote_map_entries:
  "p \<in> set (remote_map R) \<Longrightarrow> snd p \<in> set R \<and> fst p = fingerprint (snd p)"
  using foldl_update_entries [of p "[]" R] by (simp add: remote_map_alt)


text \<open>The loop of lines 434-459, in closed form.\<close>

lemma match_rules_Cons:
  "match_rules rt (l # rest) M acc =
     (case map_of M (fingerprint l) of
        None \<Rightarrow> match_rules rt rest M acc
      | Some r \<Rightarrow> match_rules rt rest (AList.delete (fingerprint l) M)
                    (acc @ [match_lists rt l r]))"
  unfolding fingerprint_def by (simp add: Let_def)

lemma delete_key_set: "fst ` set (AList.delete k al) = fst ` set al - {k}"
  by (induction al) auto

lemma filter_delete:
  "filter (\<lambda>p. fst p \<notin> A) (AList.delete k al) = filter (\<lambda>p. fst p \<noteq> k \<and> fst p \<notin> A) al"
  by (induction al) auto

lemma match_rules_result:
  "match_rules rt L M acc =
     (acc @ map (\<lambda>l. match_lists rt l (the (map_of M (fingerprint l))))
              (first_by fingerprint (filter (\<lambda>l. fingerprint l \<in> fst ` set M) L)),
      filter (\<lambda>p. fst p \<notin> fingerprint ` set L) M)"
proof (induction L arbitrary: M acc)
  case Nil
  show ?case by simp
next
  case (Cons l rest)
  show ?case
  proof (cases "map_of M (fingerprint l)")
    case None
    then have notin: "fingerprint l \<notin> fst ` set M"
      by (simp add: map_of_eq_None_iff)
    have "filter (\<lambda>p. fst p \<notin> fingerprint ` set (l # rest)) M
            = filter (\<lambda>p. fst p \<notin> fingerprint ` set rest) M"
      using notin by (intro filter_cong) (auto simp: image_iff)
    then show ?thesis using None notin
      by (simp add: match_rules_Cons Cons.IH del: match_rules.simps)
  next
    case (Some r)
    then have isin: "fingerprint l \<in> fst ` set M"
      using map_of_SomeD [of M "fingerprint l" r] by force
    let ?M2 = "AList.delete (fingerprint l) M"
    let ?ys = "filter (\<lambda>y. fingerprint y \<noteq> fingerprint l)
                 (filter (\<lambda>l. fingerprint l \<in> fst ` set M) rest)"
    have A: "filter (\<lambda>l'. fingerprint l' \<in> fst ` set ?M2) rest = ?ys"
      by (simp add: delete_key_set conj_commute)
    have ne: "fingerprint y \<noteq> fingerprint l" if "y \<in> set (first_by fingerprint ?ys)" for y
      using that first_by_subset [of fingerprint ?ys] by auto
    have B: "map (\<lambda>l'. match_lists rt l' (the (map_of ?M2 (fingerprint l'))))
                    (first_by fingerprint ?ys)
               = map (\<lambda>l'. match_lists rt l' (the (map_of M (fingerprint l'))))
                    (first_by fingerprint ?ys)"
    proof (rule map_cong [OF refl])
      fix y
      assume "y \<in> set (first_by fingerprint ?ys)"
      then have "fingerprint y \<noteq> fingerprint l"
        by (rule ne)
      then show "match_lists rt y (the (map_of ?M2 (fingerprint y)))
                   = match_lists rt y (the (map_of M (fingerprint y)))"
        by simp
    qed
    have C: "filter (\<lambda>p. fst p \<notin> fingerprint ` set rest) ?M2
               = filter (\<lambda>p. fst p \<notin> fingerprint ` set (l # rest)) M"
      by (simp add: filter_delete)
    have "match_rules rt (l # rest) M acc
            = match_rules rt rest ?M2 (acc @ [match_lists rt l r])"
      using Some by (simp add: match_rules_Cons del: match_rules.simps)
    also have "\<dots> = ((acc @ [match_lists rt l r])
                        @ map (\<lambda>l'. match_lists rt l' (the (map_of ?M2 (fingerprint l'))))
                            (first_by fingerprint ?ys),
                      filter (\<lambda>p. fst p \<notin> fingerprint ` set (l # rest)) M)"
      by (simp only: Cons.IH A C)
    finally show ?thesis using Some isin B
      by (simp del: match_rules.simps filter_filter)
  qed
qed

text \<open>Both reconcilers: the fast path, or the loop followed by what the map still holds.\<close>

lemma flatten_inbound_unfold:
  "flattenFirewallInboundRules rt (d\<lparr>inbound_rule := L\<rparr>) R =
     (if R = [] \<or> L = [] then R else reconciled rt L R)"
  by (simp add: flattenFirewallInboundRules_def reconciled_def case_prod_beta)

lemma flatten_outbound_unfold:
  "flattenFirewallOutboundRules rt (d\<lparr>outbound_rule := L\<rparr>) R =
     (if R = [] \<or> L = [] then R else reconciled rt L R)"
  by (simp add: flattenFirewallOutboundRules_def reconciled_def case_prod_beta)

lemma general_path:
  assumes adm: "admissible rt"
  shows "\<exists>tail.
           reconciled rt L R
           = map (\<lambda>l. match_lists rt l (the (map_of (remote_map R) (fingerprint l))))
               (first_by fingerprint (filter (\<lambda>l. fingerprint l \<in> fingerprint ` set R) L))
             @ tail
         \<and> set tail \<subseteq> set R
         \<and> (\<forall>r\<in>set tail. fingerprint r \<notin> fingerprint ` set L)
         \<and> distinct (map fingerprint tail)
         \<and> (\<forall>r\<in>set R. fingerprint r \<notin> fingerprint ` set L
               \<longrightarrow> fingerprint r \<in> fingerprint ` set tail)"
proof -
  let ?M' = "filter (\<lambda>p. fst p \<notin> fingerprint ` set L) (remote_map R)"
  let ?T = "range_rules rt ?M'"
  let ?tail = "map snd ?T"
  have m: "mset ?T = mset ?M'"
    using adm by (rule admissible_range_rules)
  have sT: "set ?T = set ?M'"
    using m by (rule rearranged_set)
  have ent: "snd p \<in> set R \<and> fst p = fingerprint (snd p)
               \<and> fingerprint (snd p) \<notin> fingerprint ` set L"
    if "p \<in> set ?T" for p
  proof -
    from that have "p \<in> set ?M'"
      unfolding sT .
    then have a: "p \<in> set (remote_map R)" and b: "fst p \<notin> fingerprint ` set L"
      by simp_all
    from remote_map_entries [OF a] have c: "snd p \<in> set R" and e: "fst p = fingerprint (snd p)"
      by simp_all
    from b have "fingerprint (snd p) \<notin> fingerprint ` set L"
      unfolding e .
    with c e show ?thesis
      by (intro conjI)
  qed
  have eq: "reconciled rt L R
           = map (\<lambda>l. match_lists rt l (the (map_of (remote_map R) (fingerprint l))))
               (first_by fingerprint (filter (\<lambda>l. fingerprint l \<in> fingerprint ` set R) L))
             @ ?tail"
    by (simp add: reconciled_def match_rules_result remote_map_keys)
  have sub: "set ?tail \<subseteq> set R"
  proof
    fix r
    assume "r \<in> set ?tail"
    then obtain p where p: "p \<in> set ?T" "r = snd p"
      by auto
    from ent [OF p(1)] p(2) show "r \<in> set R"
      by simp
  qed
  have notL: "\<forall>r\<in>set ?tail. fingerprint r \<notin> fingerprint ` set L"
  proof
    fix r
    assume "r \<in> set ?tail"
    then obtain p where p: "p \<in> set ?T" "r = snd p"
      by auto
    from ent [OF p(1)] p(2) show "fingerprint r \<notin> fingerprint ` set L"
      by simp
  qed
  have "map fingerprint ?tail = map (\<lambda>p. fingerprint (snd p)) ?T"
    by (simp add: comp_def)
  also have "\<dots> = map fst ?T"
  proof (rule map_cong [OF refl])
    fix p
    assume "p \<in> set ?T"
    from ent [OF this] show "fingerprint (snd p) = fst p"
      by simp
  qed
  finally have fp_tail: "map fingerprint ?tail = map fst ?T" .
  have "mset (map fst ?T) = mset (map fst ?M')"
    by (simp add: m)
  then have "distinct (map fst ?T) = distinct (map fst ?M')"
    by (rule rearranged_distinct)
  moreover have "distinct (map fst ?M')"
    using remote_map_distinct [of R] by (rule distinct_map_filter)
  ultimately have dis: "distinct (map fingerprint ?tail)"
    by (simp only: fp_tail)
  have cov: "\<forall>r\<in>set R. fingerprint r \<notin> fingerprint ` set L
               \<longrightarrow> fingerprint r \<in> fingerprint ` set ?tail"
  proof (intro ballI impI)
    fix r
    assume r: "r \<in> set R" "fingerprint r \<notin> fingerprint ` set L"
    from r(1) have "fingerprint r \<in> fst ` set (remote_map R)"
      by (simp add: remote_map_keys)
    then obtain p where p: "p \<in> set (remote_map R)" "fst p = fingerprint r"
      by auto
    with r(2) have "p \<in> set ?M'"
      by simp
    then have pT: "p \<in> set ?T"
      unfolding sT .
    from ent [OF pT] p(2) have "fingerprint r = fingerprint (snd p)"
      by simp
    moreover from pT have "snd p \<in> set ?tail"
      by simp
    ultimately show "fingerprint r \<in> fingerprint ` set ?tail"
      by (rule image_eqI)
  qed
  from eq sub notL dis cov show ?thesis by blast
qed

lemma map_fingerprint_match_lists:
  "map fingerprint (map (\<lambda>l. match_lists rt l (g l)) xs) = map fingerprint xs"
  by (simp add: comp_def)

lemma reconciled_distinct:
  assumes adm: "admissible rt"
  shows "distinct (map fingerprint (reconciled rt L R))"
proof -
  let ?F = "first_by fingerprint (filter (\<lambda>l. fingerprint l \<in> fingerprint ` set R) L)"
  from general_path [OF adm, of L R] obtain tail where
    eq: "reconciled rt L R
           = map (\<lambda>l. match_lists rt l (the (map_of (remote_map R) (fingerprint l)))) ?F @ tail"
    and notL: "\<forall>r\<in>set tail. fingerprint r \<notin> fingerprint ` set L"
    and dis: "distinct (map fingerprint tail)"
    by blast
  have FL: "set ?F \<subseteq> set L"
    using first_by_subset [of fingerprint] by fastforce
  have False if a: "a \<in> set ?F" and b: "b \<in> set tail"
    and e: "fingerprint a = fingerprint b" for a b
  proof -
    from a FL have "a \<in> set L" ..
    then have "fingerprint a \<in> fingerprint ` set L"
      by (rule imageI)
    then have "fingerprint b \<in> fingerprint ` set L"
      unfolding e .
    with notL b show False
      by blast
  qed
  then have disj: "fingerprint ` set ?F \<inter> fingerprint ` set tail = {}"
    by blast
  have "map fingerprint (reconciled rt L R) = map fingerprint ?F @ map fingerprint tail"
    unfolding eq by (simp only: map_append map_fingerprint_match_lists)
  then show ?thesis
    using first_by_distinct [of fingerprint] dis disj by simp
qed

lemma fingerprint_of_key: "fingerprint r = hashFirewallRule (fst (rule_key r)) (snd (rule_key r))"
  by (simp add: fingerprint_def rule_key_def)

lemma distinct_fingerprints_keys:
  assumes "distinct (map fingerprint xs)"
  shows "distinct (map rule_key xs)"
proof -
  have "map fingerprint xs = map (\<lambda>k. hashFirewallRule (fst k) (snd k)) (map rule_key xs)"
    by (simp add: comp_def fingerprint_of_key)
  with assms show ?thesis
    by (metis distinct_map)
qed

lemma general_path_keys:
  assumes adm: "admissible rt"
    and sep: "\<And>a b. a \<in> set L \<union> set R \<Longrightarrow> b \<in> set L \<union> set R \<Longrightarrow>
                fingerprint a = fingerprint b \<Longrightarrow> rule_key a = rule_key b"
  shows "rule_key ` set (reconciled rt L R) = rule_key ` set R"
proof -
  let ?P = "filter (\<lambda>l. fingerprint l \<in> fingerprint ` set R) L"
  let ?F = "first_by fingerprint ?P"
  from general_path [OF adm, of L R] obtain tail where
    eq: "reconciled rt L R
           = map (\<lambda>l. match_lists rt l (the (map_of (remote_map R) (fingerprint l)))) ?F @ tail"
    and sub: "set tail \<subseteq> set R"
    and cov: "\<forall>r\<in>set R. fingerprint r \<notin> fingerprint ` set L
               \<longrightarrow> fingerprint r \<in> fingerprint ` set tail"
    by blast
  have keys: "rule_key ` set (reconciled rt L R) = rule_key ` set ?F \<union> rule_key ` set tail"
    unfolding eq by (simp add: image_Un image_image)
  have FP: "set ?F \<subseteq> set ?P"
    by (rule first_by_subset)
  have left: "rule_key l \<in> rule_key ` set R" if "l \<in> set ?F" for l
  proof -
    from that FP have "l \<in> set ?P" ..
    then have lL: "l \<in> set L" and "fingerprint l \<in> fingerprint ` set R"
      by simp_all
    then obtain r where r: "r \<in> set R" "fingerprint l = fingerprint r"
      by auto
    from lL r(1) have "rule_key l = rule_key r"
      by (intro sep [OF _ _ r(2)]) simp_all
    with r(1) show ?thesis
      by simp
  qed
  have right: "rule_key r \<in> rule_key ` set ?F \<union> rule_key ` set tail" if rR: "r \<in> set R" for r
  proof (cases "fingerprint r \<in> fingerprint ` set L")
    case True
    then obtain l where l: "l \<in> set L" "fingerprint r = fingerprint l"
      by auto
    from rR l(2) have "fingerprint l \<in> fingerprint ` set R"
      by (metis imageI)
    with l(1) have "l \<in> set ?P"
      by simp
    then have "fingerprint l \<in> fingerprint ` set ?P"
      by (rule imageI)
    then have "fingerprint l \<in> fingerprint ` set ?F"
      by (simp only: first_by_image)
    then obtain l' where l': "l' \<in> set ?F" "fingerprint l = fingerprint l'"
      by auto
    from l'(1) FP have "l' \<in> set ?P" ..
    then have "l' \<in> set L"
      by simp
    moreover from l(2) l'(2) have "fingerprint l' = fingerprint r"
      by simp
    ultimately have "rule_key l' = rule_key r"
      using rR by (intro sep) simp_all
    with l'(1) show ?thesis
      by (metis UnI1 imageI)
  next
    case False
    with cov rR have "fingerprint r \<in> fingerprint ` set tail"
      by blast
    then obtain t where t: "t \<in> set tail" "fingerprint r = fingerprint t"
      by auto
    from t(1) sub have "t \<in> set R" ..
    then have "rule_key t = rule_key r"
      using rR t(2) by (intro sep) simp_all
    with t(1) show ?thesis
      by (metis UnI2 imageI)
  qed
  show ?thesis
  proof (rule set_eqI, rule iffI)
    fix k
    assume "k \<in> rule_key ` set (reconciled rt L R)"
    then have "k \<in> rule_key ` set ?F \<or> k \<in> rule_key ` set tail"
      unfolding keys by simp
    then show "k \<in> rule_key ` set R"
    proof
      assume "k \<in> rule_key ` set ?F"
      then obtain l where "l \<in> set ?F" "k = rule_key l"
        by auto
      with left show ?thesis
        by simp
    next
      assume "k \<in> rule_key ` set tail"
      with sub show ?thesis
        by auto
    qed
  next
    fix k
    assume "k \<in> rule_key ` set R"
    then obtain r where "r \<in> set R" "k = rule_key r"
      by auto
    with right show "k \<in> rule_key ` set (reconciled rt L R)"
      unfolding keys by simp
  qed
qed

subsection \<open>Fingerprints of concrete rules\<close>

lemma funpow_8: "(f ^^ 8) x = f (f (f (f (f (f (f (f x)))))))"
  by (simp add: eval_nat_numeral)

lemma NOT_0_word32: "NOT (0 :: 32 word) = 0xFFFFFFFF"
  by simp

lemma fingerprint_tcp_80: "hashFirewallRule ''tcp'' ''80'' = 2500795025"
  by (simp add: hashFirewallRule_def hashcode_String_def crc32_ChecksumIEEE_def crc32_byte_def
        crc32_shift_def funpow_8 NOT_0_word32)

lemma fingerprint_tcp_22: "hashFirewallRule ''tcp'' ''22'' = 2179896119"
  by (simp add: hashFirewallRule_def hashcode_String_def crc32_ChecksumIEEE_def crc32_byte_def
        crc32_shift_def funpow_8 NOT_0_word32)

lemma separator_collision: "hashFirewallRule ''tcp-1'' ''2'' = hashFirewallRule ''tcp'' ''1-2''"
  by (simp add: hashFirewallRule_def)

lemma fingerprint_web_rule: "fingerprint web_rule = 2500795025"
  by (simp add: fingerprint_def web_rule_def fingerprint_tcp_80)

lemma fingerprint_ssh_rule: "fingerprint ssh_rule = 2179896119"
  by (simp add: fingerprint_def ssh_rule_def fingerprint_tcp_22)

lemma flatten_web_ssh:
  "flattenFirewallInboundRules reversing_runtime (new_state\<lparr>inbound_rule := [web_rule]\<rparr>)
     [web_rule, ssh_rule] = [web_rule, ssh_rule]"
  by (simp add: flattenFirewallInboundRules_def remote_map_def match_lists_def
        matchFirewallIntLists_def matchFirewallStringLists_def reversing_runtime_sel
        web_rule_def ssh_rule_def fingerprint_tcp_80 fingerprint_tcp_22 Let_def)

lemma flatten_out_web_ssh:
  "flattenFirewallOutboundRules reversing_runtime (new_state\<lparr>outbound_rule := [web_rule]\<rparr>)
     [web_rule, ssh_rule] = [web_rule, ssh_rule]"
  by (simp add: flattenFirewallOutboundRules_def remote_map_def match_lists_def
        matchFirewallIntLists_def matchFirewallStringLists_def reversing_runtime_sel
        web_rule_def ssh_rule_def fingerprint_tcp_80 fingerprint_tcp_22 Let_def)

subsection \<open>Claim C1: the keys of the reconciled rules\<close>

text \<open>
  C1 (as stated, refuted). With no local rules the remote list is returned as it is, so a
  remote list that holds a key twice gives an output that holds it twice. And the
  fingerprint hashes the string "protocol-port_range": the local key ("tcp", "1-2") and
  the remote key ("tcp-1", "2") have the same fingerprint, the local rule is taken for the
  remote one, and the output holds the local key, which the remote list does not have.
\<close>

theorem reconciled_keys_counterexample:
  "\<not> distinct (map rule_key
       (flattenFirewallInboundRules reversing_runtime (new_state\<lparr>inbound_rule := []\<rparr>)
          [web_rule, web_rule])) \<and>
   rule_key ` set (flattenFirewallInboundRules reversing_runtime
                     (new_state\<lparr>inbound_rule := [range_rule]\<rparr>) [dash_rule])
     \<noteq> rule_key ` set [dash_rule]"
  by (simp add: flattenFirewallInboundRules_def remote_map_def match_lists_def rule_key_def
        range_rule_def dash_rule_def separator_collision Let_def)

text \<open>
  C1 (amended). Under every admissible runtime, and for local and remote lists on whose
  rules the fingerprint separates the keys (two rules with the same fingerprint have the
  same key), the set of keys of the reconciled list is the set of keys of the remote list;
  and no key appears twice in it when both lists are non-empty, or when no key appears
  twice in the remote list. This holds for the inbound and for the outbound reconciler.
\<close>

theorem reconciled_keys_are_remote_keys:
  assumes "admissible rt"
    and "\<forall>a\<in>set L \<union> set R. \<forall>b\<in>set L \<union> set R.
           fingerprint a = fingerprint b \<longrightarrow> rule_key a = rule_key b"
  shows "rule_key ` set (flattenFirewallInboundRules rt (d\<lparr>inbound_rule := L\<rparr>) R)
           = rule_key ` set R
       \<and> (L \<noteq> [] \<and> R \<noteq> [] \<or> distinct (map rule_key R) \<longrightarrow>
            distinct (map rule_key (flattenFirewallInboundRules rt (d\<lparr>inbound_rule := L\<rparr>) R)))
       \<and> rule_key ` set (flattenFirewallOutboundRules rt (d\<lparr>outbound_rule := L\<rparr>) R)
           = rule_key ` set R
       \<and> (L \<noteq> [] \<and> R \<noteq> [] \<or> distinct (map rule_key R) \<longrightarrow>
            distinct (map rule_key (flattenFirewallOutboundRules rt (d\<lparr>outbound_rule := L\<rparr>) R)))"
proof -
  have sep: "rule_key a = rule_key b"
    if "a \<in> set L \<union> set R" "b \<in> set L \<union> set R" "fingerprint a = fingerprint b" for a b
    using assms(2) that by blast
  have k: "rule_key ` set (reconciled rt L R) = rule_key ` set R"
    using assms(1) sep by (rule general_path_keys)
  have dk: "distinct (map rule_key (reconciled rt L R))"
    using reconciled_distinct [OF assms(1)] by (rule distinct_fingerprints_keys)
  show ?thesis
  proof (cases "R = [] \<or> L = []")
    case True
    then show ?thesis
      by (auto simp add: flatten_inbound_unfold flatten_outbound_unfold)
  next
    case False
    then show ?thesis
      using k dk by (simp add: flatten_inbound_unfold flatten_outbound_unfold)
  qed
qed

theorem reconciled_keys_witness:
  "admissible reversing_runtime \<and>
   fingerprint web_rule \<noteq> fingerprint ssh_rule \<and>
   flattenFirewallInboundRules reversing_runtime (new_state\<lparr>inbound_rule := [web_rule]\<rparr>)
     [web_rule, ssh_rule] = [web_rule, ssh_rule] \<and>
   rule_key ` set (flattenFirewallInboundRules reversing_runtime
                     (new_state\<lparr>inbound_rule := [web_rule]\<rparr>) [web_rule, ssh_rule])
     = {(''tcp'', ''80''), (''tcp'', ''22'')} \<and>
   distinct (map rule_key (flattenFirewallOutboundRules reversing_runtime
                     (new_state\<lparr>outbound_rule := [web_rule]\<rparr>) [web_rule, ssh_rule]))"
proof -
  have h: "\<forall>a\<in>set [web_rule] \<union> set [web_rule, ssh_rule].
      \<forall>b\<in>set [web_rule] \<union> set [web_rule, ssh_rule].
        fingerprint a = fingerprint b \<longrightarrow> rule_key a = rule_key b"
    by (simp add: fingerprint_web_rule fingerprint_ssh_rule)
  have keys: "rule_key ` set [web_rule, ssh_rule] = {(''tcp'', ''80''), (''tcp'', ''22'')}"
    by (simp add: rule_key_def web_rule_def ssh_rule_def)
  from reconciled_keys_are_remote_keys [OF admissible_reversing_runtime h, of new_state]
  show ?thesis
    using h keys
    by (simp add: admissible_reversing_runtime flatten_web_ssh fingerprint_web_rule
          fingerprint_ssh_rule)
qed

subsection \<open>Claim C10: a key that appears twice in the local list\<close>

text \<open>
  C10. Under every admissible runtime, when neither list is empty, the reconciled list
  begins with the local rules whose fingerprint a remote rule has, only the first local
  rule of each fingerprint, each with its lists reconciled against the remote rule of that
  fingerprint; what follows are remote rules whose fingerprint no local rule has. No two
  rules of the reconciled list have the same fingerprint. This holds for the inbound and
  for the outbound reconciler.
\<close>

theorem first_local_occurrence_only:
  assumes "admissible rt" and "L \<noteq> []" and "R \<noteq> []"
  shows "(\<exists>tail.
            flattenFirewallInboundRules rt (d\<lparr>inbound_rule := L\<rparr>) R
              = map (\<lambda>l. match_lists rt l (the (map_of (remote_map R) (fingerprint l))))
                  (first_by fingerprint (filter (\<lambda>l. fingerprint l \<in> fingerprint ` set R) L))
                @ tail
            \<and> set tail \<subseteq> set R
            \<and> (\<forall>r\<in>set tail. fingerprint r \<notin> fingerprint ` set L))
       \<and> distinct (map fingerprint (flattenFirewallInboundRules rt (d\<lparr>inbound_rule := L\<rparr>) R))
       \<and> flattenFirewallOutboundRules rt (d\<lparr>outbound_rule := L\<rparr>) R
            = flattenFirewallInboundRules rt (d\<lparr>inbound_rule := L\<rparr>) R"
proof -
  have i: "flattenFirewallInboundRules rt (d\<lparr>inbound_rule := L\<rparr>) R = reconciled rt L R"
    using assms(2,3) by (simp add: flatten_inbound_unfold)
  have out: "flattenFirewallOutboundRules rt (d\<lparr>outbound_rule := L\<rparr>) R = reconciled rt L R"
    using assms(2,3) by (simp add: flatten_outbound_unfold)
  from general_path [OF assms(1), of L R] obtain tail where
    "reconciled rt L R
       = map (\<lambda>l. match_lists rt l (the (map_of (remote_map R) (fingerprint l))))
           (first_by fingerprint (filter (\<lambda>l. fingerprint l \<in> fingerprint ` set R) L))
         @ tail"
    "set tail \<subseteq> set R" "\<forall>r\<in>set tail. fingerprint r \<notin> fingerprint ` set L"
    by blast
  moreover have "distinct (map fingerprint (reconciled rt L R))"
    using assms(1) by (rule reconciled_distinct)
  ultimately show ?thesis
    unfolding i out by blast
qed

theorem first_local_occurrence_witness:
  "admissible reversing_runtime \<and>
   [web_rule, web_rule\<lparr>party_addresses := [''10.0.0.1'']\<rparr>] \<noteq> [] \<and>
   [web_rule, ssh_rule] \<noteq> [] \<and>
   flattenFirewallInboundRules reversing_runtime
     (new_state\<lparr>inbound_rule := [web_rule, web_rule\<lparr>party_addresses := [''10.0.0.1'']\<rparr>]\<rparr>)
     [web_rule, ssh_rule] = [web_rule, ssh_rule] \<and>
   distinct (map fingerprint (flattenFirewallInboundRules reversing_runtime
     (new_state\<lparr>inbound_rule := [web_rule, web_rule\<lparr>party_addresses := [''10.0.0.1'']\<rparr>]\<rparr>)
     [web_rule, ssh_rule]))"
proof -
  have e: "flattenFirewallInboundRules reversing_runtime
     (new_state\<lparr>inbound_rule := [web_rule, web_rule\<lparr>party_addresses := [''10.0.0.1'']\<rparr>]\<rparr>)
     [web_rule, ssh_rule] = [web_rule, ssh_rule]"
    by (simp add: flattenFirewallInboundRules_def remote_map_def match_lists_def
        matchFirewallIntLists_def matchFirewallStringLists_def reversing_runtime_sel
        web_rule_def ssh_rule_def fingerprint_tcp_80 fingerprint_tcp_22 Let_def)
  from first_local_occurrence_only [OF admissible_reversing_runtime,
      of "[web_rule, web_rule\<lparr>party_addresses := [''10.0.0.1'']\<rparr>]" "[web_rule, ssh_rule]"
         new_state]
  show ?thesis
    using e by (simp add: admissible_reversing_runtime)
qed

subsection \<open>Claim C3: reconciling a list against itself\<close>











end
